theory Spec2Isabelle
  imports Complex_Main "HOL-Library.Multiset" "HOL-Library.Sublist"
begin

section \<open>Data model\<close>

text \<open>
  The development embeds the class \<open>BO\<close> of \<open>src/edbo/bro.py\<close>: the
  optimization loop that ties an objective store, an initialization scheme, a surrogate
  model and an acquisition function together. A candidate configuration is a numeric
  vector, an observation a configuration with its outcome. Outcomes are taken as exact
  reals; tables (pandas DataFrames) are lists of rows in insertion order.
\<close>

type_synonym config = "real list"
type_synonym outcome = real
type_synonym observation = "config \<times> outcome"

text \<open>
  Errors are values. The first seven are the error taxonomy of the specification; the
  last three are exceptions of the Python runtime: \<open>TypeError\<close> when a method
  is called on the model type instead of an instance, \<open>AttributeError\<close> when a
  surrogate without kernel hyperparameters is read, and \<open>KeyError\<close>, which a
  collaborator may raise on a missing key or column.
\<close>

datatype error =
    MissingDomainError
  | MissingObjectiveError
  | EmptyDataError
  | FitError
  | InitializationError
  | InsufficientCandidatesError
  | NoProposalError
  | TypeError
  | AttributeError
  | KeyError

text \<open>
  The argument \<open>fast_comp\<close> of \<open>simulate\<close> is documented as \<open>bool, int\<close>.
  Python compares it with \<open>==\<close> and \<open><\<close>; \<open>bool\<close> is a subtype of
  \<open>int\<close> there, with \<open>True == 1\<close> and \<open>False == 0\<close>.
\<close>

datatype pyval = PyBool bool | PyInt int

fun py_int :: "pyval \<Rightarrow> int" where
  "py_int (PyBool b) = (if b then 1 else 0)"
| "py_int (PyInt n) = n"

definition py_eq :: "pyval \<Rightarrow> pyval \<Rightarrow> bool" where
  "py_eq a b = (py_int a = py_int b)"

definition py_lt_len :: "pyval \<Rightarrow> nat \<Rightarrow> bool" where
  "py_lt_len a n = (py_int a < int n)"

fun py_in :: "string \<Rightarrow> string \<Rightarrow> bool" where
  "py_in sub [] = (sub = [])"
| "py_in sub (c # cs) = (take (length sub) (c # cs) = sub \<or> py_in sub cs)"

subsection \<open>Hyperparameter priors\<close>

text \<open>
  A prior specification is a two-element Python list \<open>[prior, value]\<close>, or
  \<open>None\<close>. \<open>simulate\<close> overwrites the second slot of the list in place, so
  the lists live in a store of list objects and a \<open>BO\<close> instance holds references:
  two of its priors may be the same list object.
\<close>

datatype prior = GammaPrior real real

type_synonym addr = nat
type_synonym prior_spec = "prior option \<times> real"

definition deref :: "(addr \<Rightarrow> prior_spec) \<Rightarrow> addr option \<Rightarrow> prior_spec option" where
  "deref h p = map_option h p"

subsection \<open>Surrogate models\<close>

text \<open>
  The arguments \<open>bro.py\<close> passes to the constructor of the surrogate model, after the
  training data.
\<close>

record hyper =
  h_gpu :: bool
  h_nu :: real
  h_noise_constraint :: real
  h_lengthscale_prior :: "prior_spec option"
  h_outputscale_prior :: "prior_spec option"
  h_noise_prior :: "prior_spec option"
  h_n_restarts :: nat
  h_learning_rate :: real
  h_training_iters :: nat

text \<open>
  Modelled from the spec: the surrogate model (module \<open>models\<close>, not in the sources)
  is the black box of section 4.3. An instance predicts a mean and a variance for a
  candidate, both in standardized outcome space; a Gaussian-process instance also holds
  the point estimates of lengthscale, output scale and noise that \<open>simulate\<close> reads
  back (\<open>model.covar_module.base_kernel.lengthscale\<close>,
  \<open>model.covar_module.outputscale\<close>, \<open>model.likelihood.noise\<close>), an instance of
  another kind holds none.
\<close>

record surrogate =
  predict :: "config \<Rightarrow> real"
  variance :: "config \<Rightarrow> real"
  gp_estimates :: "(real \<times> real \<times> real) option"

text \<open>
  Modelled from the spec: a model type, the value of the constructor argument
  \<open>model\<close>. \<open>type_name\<close> is what \<open>str\<close> prints for it, \<open>construct\<close>
  builds an instance from the training data and the hyperparameter configuration, and
  \<open>fit\<close> optimizes the instance's hyperparameters or fails with \<open>FitError\<close>.
\<close>

record model_type =
  type_name :: string
  construct :: "config list \<Rightarrow> real list \<Rightarrow> hyper \<Rightarrow> surrogate"
  fit :: "surrogate \<Rightarrow> error + surrogate"

subsection \<open>Objective store\<close>

record scaler =
  mean :: real
  std :: real

text \<open>
  Modelled from the spec: the objective store (module \<open>objective\<close>, not in the
  sources) of sections 3 and 4.1. It holds the domain, the ResultSet \<open>results\<close>, the
  experiment index used as lookup table, the optional computational objective, and the
  standardization state, which \<open>standardizer\<close> derives from the outcomes of the
  ResultSet whenever it changes. For a candidate that neither the computational
  objective nor the index resolves, the spec says only that it comes back unresolved,
  pending external results; what the store does with such a candidate, raise an error
  of its own or stand in an outcome, is the black box \<open>unresolved\<close>.
\<close>

record objective =
  domain :: "config list"
  results :: "observation list"
  exindex :: "observation list"
  computational_objective :: "(config \<Rightarrow> outcome) option"
  unresolved :: "config \<Rightarrow> error + outcome"
  standardizer :: "outcome list \<Rightarrow> scaler"
  scaler :: scaler

definition standardize :: "scaler \<Rightarrow> real \<Rightarrow> real" where
  "standardize sc v = (v - mean sc) / std sc"


text \<open>Modelled from the spec: \<open>clear()\<close> empties the ResultSet.\<close>

definition clear_results :: "objective \<Rightarrow> objective" where
  "clear_results ob = ob\<lparr>results := [], scaler := standardizer ob []\<rparr>"

text \<open>Modelled from the spec: the raw results table, rows in insertion order.\<close>

definition results_input :: "objective \<Rightarrow> observation list" where
  "results_input ob = results ob"

text \<open>
  Modelled from the spec: the standardized design matrix \<open>X\<close> and targets \<open>y\<close>
  of the ResultSet.
\<close>

definition obj_X :: "objective \<Rightarrow> config list" where
  "obj_X ob = map fst (results ob)"

definition obj_y :: "objective \<Rightarrow> real list" where
  "obj_y ob = map (\<lambda>r. standardize (scaler ob) (snd r)) (results ob)"

text \<open>
  Modelled from the spec: \<open>currentTrainingData()\<close> fails with
  \<open>EmptyDataError\<close> if the ResultSet is empty and a fit is attempted.
\<close>

definition training_data :: "objective \<Rightarrow> error + (config list \<times> real list)" where
  "training_data ob =
     (if results ob = [] then Inl EmptyDataError else Inr (obj_X ob, obj_y ob))"

text \<open>
  Modelled from the spec: \<open>resolveOutcomes(candidates, append)\<close>. Each candidate's
  outcome is computed by the computational objective, or looked up in the experiment
  index; a candidate that neither resolves is left to \<open>unresolved\<close>, and an error
  there ends the call. With \<open>append\<close> the resolved batch is appended to the
  ResultSet, all of it or nothing, and the standardization is recomputed; the resolved
  batch is returned.
\<close>

definition resolve :: "objective \<Rightarrow> config \<Rightarrow> error + observation" where
  "resolve ob c =
     (case computational_objective ob of
        Some f \<Rightarrow> Inr (c, f c)
      | None \<Rightarrow>
          (case map_of (exindex ob) c of
             Some y \<Rightarrow> Inr (c, y)
           | None \<Rightarrow>
               (case unresolved ob c of
                  Inl e \<Rightarrow> Inl e
                | Inr y \<Rightarrow> Inr (c, y))))"

fun resolve_all :: "objective \<Rightarrow> config list \<Rightarrow> error + observation list" where
  "resolve_all ob [] = Inr []"
| "resolve_all ob (c # cs) =
     (case resolve ob c of
        Inl e \<Rightarrow> Inl e
      | Inr r \<Rightarrow>
          (case resolve_all ob cs of
             Inl e \<Rightarrow> Inl e
           | Inr rs \<Rightarrow> Inr (r # rs)))"

definition get_results ::
  "objective \<Rightarrow> config list \<Rightarrow> bool \<Rightarrow> error + (observation list \<times> objective)" where
  "get_results ob candidates app =
     (case resolve_all ob candidates of
        Inl e \<Rightarrow> Inl e
      | Inr batch \<Rightarrow>
          Inr (batch,
               if app
               then ob\<lparr>results := results ob @ batch,
                       scaler := standardizer ob (map snd (results ob @ batch))\<rparr>
               else ob))"

subsection \<open>Initialization scheme\<close>

datatype init_method = Rand | Pam | Kmeans | External

text \<open>
  Modelled from the spec: the initialization scheme (module \<open>init_scheme\<close>, not in
  the sources) of section 4.2. Random and cluster sampling are the black box
  \<open>sampler\<close>, which sees the objective store, the seed and the batch size and either
  returns configurations or fails with \<open>InitializationError\<close>; \<open>external\<close>
  does not sample: it passes the configurations of the externally supplied results
  through.
\<close>

record init =
  init_method :: init_method
  init_batch_size :: nat
  sampler :: "init_method \<Rightarrow> objective \<Rightarrow> int option \<Rightarrow> nat \<Rightarrow> error + config list"

definition init_run :: "init \<Rightarrow> objective \<Rightarrow> int option \<Rightarrow> error + config list" where
  "init_run i ob seed =
     (if init_method i = External then Inr (map fst (results_input ob))
      else sampler i (init_method i) ob seed (init_batch_size i))"

subsection \<open>Acquisition function\<close>

text \<open>
  Modelled from the spec: the acquisition policy (module \<open>acq_func\<close>, not in the
  sources) of section 4.4. The strategy is the black box \<open>score\<close>: the criterion
  that ranks the candidates for the \<open>k\<close>-th pick of a batch (one criterion for all
  picks of a single-criterion strategy, the named criterion for the first pick and a
  posterior sample for each later one of a hybrid strategy). Unless duplicates are
  allowed, every configuration already in the ResultSet is excluded; each pick is the
  best-scoring candidate left and is excluded from the later picks; with fewer than
  \<open>batch_size\<close> eligible candidates the policy fails with
  \<open>InsufficientCandidatesError\<close>.
\<close>

record acquisition =
  acq_batch_size :: nat
  duplicates :: bool
  score :: "nat \<Rightarrow> surrogate \<Rightarrow> objective \<Rightarrow> config \<Rightarrow> real"

definition eligible :: "acquisition \<Rightarrow> objective \<Rightarrow> config list" where
  "eligible a ob =
     (if duplicates a then domain ob
      else filter (\<lambda>c. c \<notin> set (map fst (results ob))) (domain ob))"

fun arg_best :: "(config \<Rightarrow> real) \<Rightarrow> config \<Rightarrow> config list \<Rightarrow> config" where
  "arg_best f b [] = b"
| "arg_best f b (c # cs) = (if f b < f c then arg_best f c cs else arg_best f b cs)"

fun select_batch :: "(nat \<Rightarrow> config \<Rightarrow> real) \<Rightarrow> nat \<Rightarrow> nat \<Rightarrow> config list \<Rightarrow> config list" where
  "select_batch sc k 0 cands = []"
| "select_batch sc k (Suc n) [] = []"
| "select_batch sc k (Suc n) (c # cs) =
     (let b = arg_best (sc k) c cs
      in b # select_batch sc (Suc k) n (remove1 b (c # cs)))"

definition evaluate :: "acquisition \<Rightarrow> surrogate \<Rightarrow> objective \<Rightarrow> error + config list" where
  "evaluate a m ob =
     (let cands = eligible a ob
      in if length cands < acq_batch_size a then Inl InsufficientCandidatesError
         else Inr (select_batch (\<lambda>k. score a k m ob) 0 (acq_batch_size a) cands))"

section \<open>The optimization loop: class \<open>BO\<close>\<close>

text \<open>
  The attributes that \<open>__init__\<close> sets, in its order. \<open>model\<close> is the slot
  that holds the model type until a surrogate instance is built: \<open>None\<close> stands
  for "holds the type, no instance yet". The three priors are references to list
  objects. The last three fields are the state outside the instance that the methods
  read and write: the fast-computation switch that \<open>fast_computation\<close> sets, and
  the store of prior lists with its next free address.
\<close>

record bo =
  fast_comp :: pyval
  obj :: objective
  acq :: acquisition
  init_seq :: init
  base_model :: model_type
  model :: "surrogate option"
  batch_size :: nat
  duplicate_experiments :: bool
  gpu :: bool
  proposed_experiments :: "config list"
  nu :: real
  noise_constraint :: real
  lengthscale_prior :: "addr option"
  outputscale_prior :: "addr option"
  noise_prior :: "addr option"
  fast_mode :: bool
  heap :: "addr \<Rightarrow> prior_spec"
  next_addr :: addr

text \<open>
  A call either returns a value or raises; both leave a state behind, the one the
  instance is in when the call ends.
\<close>

datatype 'a result = Returned 'a bo | Raised error bo

fun final_state :: "'a result \<Rightarrow> bo" where
  "final_state (Returned v s) = s"
| "final_state (Raised e s) = s"

fun has_returned :: "'a result \<Rightarrow> bool" where
  "has_returned (Returned v s) = True"
| "has_returned (Raised e s) = False"

text \<open>
  Modelled from the spec: \<open>fast_computation(flag)\<close> (module \<open>base_models\<close>, not
  in the sources) sets the process-wide switch between exact and fast-approximate
  computation.
\<close>

definition fast_computation :: "bool \<Rightarrow> bo \<Rightarrow> bo" where
  "fast_computation flag s = s\<lparr>fast_mode := flag\<rparr>"

text \<open>
  \<open>__init__\<close>. Tables are passed in memory; the store of prior lists and the
  black boxes of the collaborating modules come with the arguments.
\<close>

definition BO ::
  "objective \<Rightarrow> model_type \<Rightarrow> (nat \<Rightarrow> surrogate \<Rightarrow> objective \<Rightarrow> config \<Rightarrow> real) \<Rightarrow>
   init_method \<Rightarrow> (init_method \<Rightarrow> objective \<Rightarrow> int option \<Rightarrow> nat \<Rightarrow> error + config list) \<Rightarrow>
   nat \<Rightarrow> bool \<Rightarrow> bool \<Rightarrow> pyval \<Rightarrow> real \<Rightarrow> real \<Rightarrow>
   addr option \<Rightarrow> addr option \<Rightarrow> addr option \<Rightarrow> (addr \<Rightarrow> prior_spec) \<Rightarrow> addr \<Rightarrow> bo" where
  "BO ob mdl acquisition_function method sampling batch dup use_gpu fc noise matern_nu
      ls_prior os_prior n_prior store free =
     \<lparr>fast_comp = fc,
      obj = ob,
      acq = \<lparr>acq_batch_size = batch, duplicates = dup, score = acquisition_function\<rparr>,
      init_seq = \<lparr>init_method = method, init_batch_size = batch, sampler = sampling\<rparr>,
      base_model = mdl,
      model = None,
      batch_size = batch,
      duplicate_experiments = dup,
      gpu = use_gpu,
      proposed_experiments = [],
      nu = matern_nu,
      noise_constraint = noise,
      lengthscale_prior = ls_prior,
      outputscale_prior = os_prior,
      noise_prior = n_prior,
      fast_mode = (py_int fc \<noteq> 0),
      heap = store,
      next_addr = free\<rparr>"

subsection \<open>\<open>init_sample\<close>\<close>

definition init_sample :: "bo \<Rightarrow> int option \<Rightarrow> bool \<Rightarrow> (config list) result" where
  "init_sample s seed app =
     (let s1 = (if init_method (init_seq s) \<noteq> External
                then s\<lparr>obj := clear_results (obj s)\<rparr> else s)
      in case init_run (init_seq s1) (obj s1) seed of
           Inl e \<Rightarrow> Raised e s1
         | Inr batch \<Rightarrow>
             (let s2 = s1\<lparr>proposed_experiments := batch\<rparr>
              in if app \<and> init_method (init_seq s2) \<noteq> External
                 then (case get_results (obj s2) (proposed_experiments s2) app of
                         Inl e \<Rightarrow> Raised e s2
                       | Inr (delta, ob') \<Rightarrow>
                           Returned (proposed_experiments s2) (s2\<lparr>obj := ob'\<rparr>))
                 else Returned (proposed_experiments s2) s2))"

subsection \<open>\<open>run\<close>\<close>

text \<open>
  The block "Initialize and train model", which \<open>run\<close> and \<open>simulate\<close> share
  word for word: the model slot receives a fresh instance of the base model, built
  from the current training data and hyperparameters, and the instance is fitted.
\<close>

definition train_model :: "bo \<Rightarrow> nat \<Rightarrow> real \<Rightarrow> nat \<Rightarrow> surrogate result" where
  "train_model s n_restarts learning_rate training_iters =
     (case training_data (obj s) of
        Inl e \<Rightarrow> Raised e s
      | Inr (X, y) \<Rightarrow>
          (let m = construct (base_model s) X y
                     \<lparr>h_gpu = gpu s,
                      h_nu = nu s,
                      h_noise_constraint = noise_constraint s,
                      h_lengthscale_prior = deref (heap s) (lengthscale_prior s),
                      h_outputscale_prior = deref (heap s) (outputscale_prior s),
                      h_noise_prior = deref (heap s) (noise_prior s),
                      h_n_restarts = n_restarts,
                      h_learning_rate = learning_rate,
                      h_training_iters = training_iters\<rparr>;
               s1 = s\<lparr>model := Some m\<rparr>
           in case fit (base_model s1) m of
                Inl e \<Rightarrow> Raised e s1
              | Inr m' \<Rightarrow> Returned m' (s1\<lparr>model := Some m'\<rparr>)))"

definition run :: "bo \<Rightarrow> bool \<Rightarrow> nat \<Rightarrow> real \<Rightarrow> nat \<Rightarrow> (config list) result" where
  "run s app n_restarts learning_rate training_iters =
     (case train_model s n_restarts learning_rate training_iters of
        Raised e s1 \<Rightarrow> Raised e s1
      | Returned m s1 \<Rightarrow>
          (case evaluate (acq s1) m (obj s1) of
             Inl e \<Rightarrow> Raised e s1
           | Inr batch \<Rightarrow>
               (let s2 = s1\<lparr>proposed_experiments := batch\<rparr>
                in if app
                   then (case get_results (obj s2) (proposed_experiments s2) app of
                           Inl e \<Rightarrow> Raised e s2
                         | Inr (delta, ob') \<Rightarrow>
                             Returned (proposed_experiments s2) (s2\<lparr>obj := ob'\<rparr>))
                   else Returned (proposed_experiments s2) s2)))"

subsection \<open>\<open>simulate\<close>\<close>

text \<open>The block "Toggle computation" of the loop body.\<close>

definition toggle_computation :: "pyval \<Rightarrow> bo \<Rightarrow> bo" where
  "toggle_computation fc s =
     (if py_eq fc (PyBool True) then fast_computation True s
      else if py_eq fc (PyBool False) then fast_computation False s
      else if py_lt_len fc (length (obj_y (obj s))) then fast_computation True s
      else s)"

text \<open>
  The block "Use parameter estimates from previous step as initial values", under its
  guard. The estimates are read from the surrogate in the model slot; each prior is
  replaced by a new list \<open>[None, estimate]\<close> when it is \<open>None\<close>, and has the
  second slot of its list overwritten in place otherwise.
\<close>

definition is_GP :: "model_type \<Rightarrow> bool" where
  "is_GP mt = py_in ''GP'' (type_name mt)"

definition carry_over :: "bo \<Rightarrow> unit result" where
  "carry_over s =
     (case model s of
        None \<Rightarrow> Raised AttributeError s
      | Some m \<Rightarrow>
          (case gp_estimates m of
             None \<Rightarrow> Raised AttributeError s
           | Some (post_ls, post_os, post_n) \<Rightarrow>
               (let s1 = (case lengthscale_prior s of
                            None \<Rightarrow> s\<lparr>lengthscale_prior := Some (next_addr s),
                                      heap := (heap s)(next_addr s := (None, post_ls)),
                                      next_addr := Suc (next_addr s)\<rparr>
                          | Some a \<Rightarrow> s\<lparr>heap := (heap s)(a := (fst (heap s a), post_ls))\<rparr>);
                    s2 = (case outputscale_prior s1 of
                            None \<Rightarrow> s1\<lparr>outputscale_prior := Some (next_addr s1),
                                       heap := (heap s1)(next_addr s1 := (None, post_os)),
                                       next_addr := Suc (next_addr s1)\<rparr>
                          | Some a \<Rightarrow> s1\<lparr>heap := (heap s1)(a := (fst (heap s1 a), post_os))\<rparr>);
                    s3 = (case noise_prior s2 of
                            None \<Rightarrow> s2\<lparr>noise_prior := Some (next_addr s2),
                                       heap := (heap s2)(next_addr s2 := (None, post_n)),
                                       next_addr := Suc (next_addr s2)\<rparr>
                          | Some a \<Rightarrow> s2\<lparr>heap := (heap s2)(a := (fst (heap s2 a), post_n))\<rparr>)
                in Returned () s3)))"

definition update_priors_step :: "bool \<Rightarrow> nat \<Rightarrow> bo \<Rightarrow> unit result" where
  "update_priors_step update_priors i s =
     (if update_priors \<and> 0 < i \<and> is_GP (base_model s) then carry_over s
      else Returned () s)"

text \<open>One pass through the body of the loop, at iteration index \<open>i\<close>.\<close>

definition simulate_iteration ::
  "pyval \<Rightarrow> bool \<Rightarrow> nat \<Rightarrow> real \<Rightarrow> nat \<Rightarrow> nat \<Rightarrow> bo \<Rightarrow> unit result" where
  "simulate_iteration fc update_priors n_restarts learning_rate training_iters i s =
     (case update_priors_step update_priors i (toggle_computation fc s) of
        Raised e s1 \<Rightarrow> Raised e s1
      | Returned u s1 \<Rightarrow>
          (case train_model s1 n_restarts learning_rate training_iters of
             Raised e s2 \<Rightarrow> Raised e s2
           | Returned m s2 \<Rightarrow>
               (case evaluate (acq s2) m (obj s2) of
                  Inl e \<Rightarrow> Raised e s2
                | Inr batch \<Rightarrow>
                    (let s3 = s2\<lparr>proposed_experiments := batch\<rparr>
                     in case get_results (obj s3) (proposed_experiments s3) True of
                          Inl e \<Rightarrow> Raised e s3
                        | Inr (delta, ob') \<Rightarrow> Returned () (s3\<lparr>obj := ob'\<rparr>)))))"

text \<open>
  \<open>for i in range(iterations)\<close>: \<open>simulate_loop \<dots> i n s\<close> runs the \<open>n\<close>
  iterations with indices \<open>i, i + 1, \<dots>\<close> from state \<open>s\<close>; an iteration that
  raises ends the loop.
\<close>

fun simulate_loop ::
  "pyval \<Rightarrow> bool \<Rightarrow> nat \<Rightarrow> real \<Rightarrow> nat \<Rightarrow> nat \<Rightarrow> nat \<Rightarrow> bo \<Rightarrow> unit result" where
  "simulate_loop fc up nr lr ti i 0 s = Returned () s"
| "simulate_loop fc up nr lr ti i (Suc n) s =
     (case simulate_iteration fc up nr lr ti i s of
        Raised e s' \<Rightarrow> Raised e s'
      | Returned u s' \<Rightarrow> simulate_loop fc up nr lr ti (Suc i) n s')"

definition simulate ::
  "bo \<Rightarrow> nat \<Rightarrow> int option \<Rightarrow> pyval \<Rightarrow> bool \<Rightarrow> nat \<Rightarrow> real \<Rightarrow> nat \<Rightarrow> unit result" where
  "simulate s iterations seed fc update_priors n_restarts learning_rate training_iters =
     (case init_sample s seed True of
        Raised e s0 \<Rightarrow> Raised e s0
      | Returned batch s0 \<Rightarrow>
          simulate_loop fc update_priors n_restarts learning_rate training_iters
            0 iterations s0)"

subsection \<open>\<open>acquisition_summary\<close> and \<open>best\<close>\<close>


text \<open>
  \<open>best\<close> sorts the results table with pandas' \<open>sort_values(target,
  ascending=False)\<close> and returns \<open>head()\<close>, the first five rows. The sort is the
  library's, called with its default \<open>kind='quicksort'\<close>, and is a parameter here;
  \<open>sorts_descending\<close> is what the library documents for that call: the rows come
  back rearranged, in descending order of the target (of the sort kinds only
  \<open>mergesort\<close> and \<open>stable\<close> are documented as stable).
\<close>

definition sorts_descending ::
  "(observation list \<Rightarrow> observation list) \<Rightarrow> observation list \<Rightarrow> bool" where
  "sorts_descending sort_values rows =
     (mset (sort_values rows) = mset rows \<and>
      sorted_wrt (\<lambda>a b. snd b \<le> snd a) (sort_values rows))"

definition best :: "(observation list \<Rightarrow> observation list) \<Rightarrow> bo \<Rightarrow> observation list" where
  "best sort_values s = take 5 (sort_values (results_input (obj s)))"

text \<open>
  Rows with equal outcomes stand in \<open>out\<close> in the order of their insertion into
  \<open>rows\<close>: for every outcome of \<open>out\<close>, the rows of \<open>out\<close> with that outcome
  are the first ones of \<open>rows\<close> with it, in the same order.
\<close>

definition ties_in_insertion_order :: "observation list \<Rightarrow> observation list \<Rightarrow> bool" where
  "ties_in_insertion_order rows out =
     list_all (\<lambda>v. prefix (filter (\<lambda>r. snd r = v) out) (filter (\<lambda>r. snd r = v) rows))
       (map snd out)"

text \<open>A sort that meets the library's description and keeps ties in their order.\<close>

definition stable_sort_desc :: "observation list \<Rightarrow> observation list" where
  "stable_sort_desc rows = sort_key (\<lambda>r. - snd r) rows"

section \<open>Auxiliary notions and examples\<close>

fun raised_error :: "'a result \<Rightarrow> error option" where
  "raised_error (Returned v s) = None"
| "raised_error (Raised e s) = Some e"

text \<open>
  What no method of \<open>BO\<close> assigns after construction: the acquisition function,
  the initialization scheme, the base model, and the store's domain, experiment index,
  computational objective, treatment of unresolved candidates and standardizer.
\<close>

definition same_setup :: "bo \<Rightarrow> bo \<Rightarrow> bool" where
  "same_setup s s' =
     (acq s' = acq s \<and> init_seq s' = init_seq s \<and> base_model s' = base_model s \<and>
      domain (obj s') = domain (obj s) \<and> exindex (obj s') = exindex (obj s) \<and>
      computational_objective (obj s') = computational_objective (obj s) \<and>
      unresolved (obj s') = unresolved (obj s) \<and>
      standardizer (obj s') = standardizer (obj s))"

text \<open>
  Concrete instances, for the examples below: a Gaussian-process model type whose fit
  always succeeds with the estimates 2, 3 and 4, a score that is the predicted mean, a
  sampler that takes the first rows of the domain, a store that raises
  \<open>KeyError\<close> for a candidate it cannot resolve, the three default prior lists
  at the addresses 0, 1 and 2, and one-row batches.
\<close>

definition example_model :: model_type where
  "example_model =
     \<lparr>type_name = ''GP_Model'',
      construct = (\<lambda>X y h. \<lparr>predict = (\<lambda>c. 0), variance = (\<lambda>c. 1), gp_estimates = None\<rparr>),
      fit = (\<lambda>m. Inr (m\<lparr>gp_estimates := Some (2, 3, 4)\<rparr>))\<rparr>"

definition example_score :: "nat \<Rightarrow> surrogate \<Rightarrow> objective \<Rightarrow> config \<Rightarrow> real" where
  "example_score k m ob c = predict m c"

definition example_sampler ::
  "init_method \<Rightarrow> objective \<Rightarrow> int option \<Rightarrow> nat \<Rightarrow> error + config list" where
  "example_sampler method ob seed n =
     (if n \<le> length (domain ob) then Inr (take n (domain ob)) else Inl InitializationError)"

definition example_store :: "addr \<Rightarrow> prior_spec" where
  "example_store a =
     (if a = 0 then (Some (GammaPrior 2 (1/5)), 5)
      else if a = 1 then (Some (GammaPrior 5 (1/2)), 8)
      else (Some (GammaPrior (3/2) (1/2)), 1))"

definition example_objective ::
  "config list \<Rightarrow> observation list \<Rightarrow> (config \<Rightarrow> outcome) option \<Rightarrow> objective" where
  "example_objective points res f =
     \<lparr>domain = points, results = res, exindex = [], computational_objective = f,
      unresolved = (\<lambda>c. Inl KeyError),
      standardizer = (\<lambda>ys. \<lparr>mean = 0, std = 1\<rparr>), scaler = \<lparr>mean = 0, std = 1\<rparr>\<rparr>"

definition example_bo ::
  "objective \<Rightarrow> init_method \<Rightarrow> addr option \<Rightarrow> addr option \<Rightarrow> addr option \<Rightarrow> bo" where
  "example_bo ob method ls os n =
     BO ob example_model example_score method example_sampler 1 False False (PyBool False)
        (1/100000) (5/2) ls os n example_store 3"

definition rand_bo :: bo where
  "rand_bo = example_bo (example_objective [[0], [1], [2]] [([2], 5)] (Some sum_list)) Rand
               (Some 0) (Some 1) (Some 2)"

definition external_bo :: bo where
  "external_bo = example_bo (example_objective [[0], [1]] [([0], 1)] (Some sum_list)) External
               (Some 0) (Some 1) (Some 2)"

text \<open>The prior specification a reference stands for.\<close>

definition prior_value :: "bo \<Rightarrow> addr option \<Rightarrow> prior_spec option" where
  "prior_value s p = deref (heap s) p"

text \<open>The prior state of an instance: the store of prior lists and its three references.\<close>

definition prior_state :: "bo \<Rightarrow> (addr \<Rightarrow> prior_spec) \<times> addr option \<times> addr option \<times> addr option" where
  "prior_state s = (heap s, lengthscale_prior s, outputscale_prior s, noise_prior s)"

text \<open>
  Further instances: one without computational objective and without experiment index,
  and one with an empty ResultSet.
\<close>

definition no_source_bo :: "init_method \<Rightarrow> bo" where
  "no_source_bo method =
     example_bo (example_objective [[0], [1], [2]] [([2], 5)] None) method
       (Some 0) (Some 1) (Some 2)"

definition empty_bo :: bo where
  "empty_bo = example_bo (example_objective [[0], [1]] [] (Some sum_list)) External
               (Some 0) (Some 1) (Some 2)"

text \<open>
  The distribution object of a prior specification (none for \<open>None\<close>), and two
  conditions on the references of an instance: each refers to a list that exists, and
  no two of them refer to the same list.
\<close>

definition prior_object :: "bo \<Rightarrow> addr option \<Rightarrow> prior option" where
  "prior_object s p = (case p of None \<Rightarrow> None | Some a \<Rightarrow> fst (heap s a))"

definition refs_allocated :: "bo \<Rightarrow> bool" where
  "refs_allocated s =
     list_all (\<lambda>p. case p of None \<Rightarrow> True | Some a \<Rightarrow> a < next_addr s)
       [lengthscale_prior s, outputscale_prior s, noise_prior s]"

definition separate_priors :: "bo \<Rightarrow> bool" where
  "separate_priors s =
     ((lengthscale_prior s = None \<or>
         (lengthscale_prior s \<noteq> outputscale_prior s \<and> lengthscale_prior s \<noteq> noise_prior s)) \<and>
      (outputscale_prior s = None \<or> outputscale_prior s \<noteq> noise_prior s))"

text \<open>
  An instance with one list object passed for all three priors; \<open>after_one\<close> is
  the state that a simulation of one iteration with prior carryover requested leaves.
\<close>

definition aliased_bo :: bo where
  "aliased_bo = example_bo (example_objective [[0], [1], [2]] [] (Some sum_list)) Rand
                  (Some 0) (Some 0) (Some 0)"

definition after_one :: "bo \<Rightarrow> bo" where
  "after_one b = final_state (simulate b 1 None (PyBool False) True 0 (1/10) 100)"

text \<open>An instance constructed with \<open>fast_comp=True\<close>.\<close>

definition fast_bo :: bo where
  "fast_bo =
     BO (example_objective [[0], [1], [2]] [] (Some sum_list)) example_model example_score
        Rand example_sampler 1 False False (PyBool True) (1/100000) (5/2)
        (Some 0) (Some 1) (Some 2) example_store 3"

section \<open>Properties of the collaborators\<close>

lemma resolve_fst: "resolve ob c = Inr r \<Longrightarrow> fst r = c"
  by (auto simp: resolve_def split: option.splits sum.splits)

lemma resolve_all_map_fst: "resolve_all ob cs = Inr rs \<Longrightarrow> map fst rs = cs"
  by (induction cs arbitrary: rs) (auto split: sum.splits dest: resolve_fst)

lemma resolve_all_length: "resolve_all ob cs = Inr rs \<Longrightarrow> length rs = length cs"
  using resolve_all_map_fst [of ob cs rs] by (metis length_map)

lemma get_results_Inr:
  assumes "get_results ob cs app = Inr (b, ob')"
  shows "map fst b = cs"
    and "ob' = (if app then ob\<lparr>results := results ob @ b,
                  scaler := standardizer ob (map snd (results ob @ b))\<rparr> else ob)"
  using assms
  by (auto simp: get_results_def split: if_splits sum.splits dest: resolve_all_map_fst)

lemma arg_best_in: "arg_best f b cs \<in> set (b # cs)"
  by (induction cs arbitrary: b) auto

lemma select_batch_length: "length (select_batch sc k n cands) = min n (length cands)"
proof (induction sc k n cands rule: select_batch.induct)
  case (3 sc k n c cs)
  have "arg_best (sc k) c cs \<in> set (c # cs)" by (rule arg_best_in)
  then have "length (remove1 (arg_best (sc k) c cs) (c # cs)) = length (c # cs) - 1"
    by (simp only: length_remove1 if_True)
  then have "length (remove1 (arg_best (sc k) c cs) (c # cs)) = length cs"
    by simp
  with 3 show ?case by (simp add: Let_def del: remove1.simps)
qed simp_all

lemma select_batch_subset: "set (select_batch sc k n cands) \<subseteq> set cands"
proof (induction sc k n cands rule: select_batch.induct)
  case (3 sc k n c cs)
  have in_set: "arg_best (sc k) c cs \<in> set (c # cs)" by (rule arg_best_in)
  have "set (remove1 (arg_best (sc k) c cs) (c # cs)) \<subseteq> set (c # cs)"
    by (rule set_remove1_subset)
  with 3 in_set show ?case by (auto simp: Let_def)
qed simp_all

lemma evaluate_Inr:
  assumes "evaluate a m ob = Inr batch"
  shows "length batch = acq_batch_size a" and "set batch \<subseteq> set (eligible a ob)"
  using assms select_batch_subset [of "\<lambda>k. score a k m ob" 0 "acq_batch_size a" "eligible a ob"]
  by (auto simp: evaluate_def Let_def select_batch_length split: if_splits)


section \<open>Properties of the steps of the loop\<close>



lemma train_model_state:
  "\<exists>mo. final_state (train_model s nr lr ti) = s\<lparr>model := mo\<rparr>"
proof (cases "training_data (obj s)")
  case (Inl e)
  then have "final_state (train_model s nr lr ti) = s\<lparr>model := model s\<rparr>"
    by (simp add: train_model_def)
  then show ?thesis by blast
next
  case (Inr d)
  then show ?thesis
    by (cases d) (auto simp: train_model_def Let_def split: sum.splits)
qed

lemma train_model_frame:
  assumes "final_state (train_model s nr lr ti) = s'"
  shows "obj s' = obj s" and "acq s' = acq s" and "init_seq s' = init_seq s"
    and "base_model s' = base_model s" and "heap s' = heap s"
    and "lengthscale_prior s' = lengthscale_prior s"
    and "outputscale_prior s' = outputscale_prior s"
    and "noise_prior s' = noise_prior s" and "next_addr s' = next_addr s"
    and "proposed_experiments s' = proposed_experiments s"
    and "fast_mode s' = fast_mode s"
  using assms train_model_state [of s nr lr ti] by auto


lemma toggle_computation_state:
  "\<exists>f. toggle_computation fc s = s\<lparr>fast_mode := f\<rparr>"
proof -
  have "s = s\<lparr>fast_mode := fast_mode s\<rparr>" by simp
  then show ?thesis
    unfolding toggle_computation_def fast_computation_def by (metis (full_types))
qed

lemma carry_over_frame:
  assumes "final_state (carry_over s) = s'"
  shows "obj s' = obj s" and "acq s' = acq s" and "init_seq s' = init_seq s"
    and "base_model s' = base_model s" and "model s' = model s"
    and "proposed_experiments s' = proposed_experiments s"
    and "fast_mode s' = fast_mode s"
  using assms
  by (auto simp: carry_over_def Let_def split: option.splits prod.splits)

lemma update_priors_step_frame:
  assumes "final_state (update_priors_step up i s) = s'"
  shows "obj s' = obj s" and "acq s' = acq s" and "init_seq s' = init_seq s"
    and "base_model s' = base_model s" and "model s' = model s"
    and "proposed_experiments s' = proposed_experiments s"
    and "fast_mode s' = fast_mode s"
  using assms carry_over_frame [of s s']
  by (auto simp: update_priors_step_def split: if_splits)

lemma toggle_computation_frame:
  shows "obj (toggle_computation fc s) = obj s" and "acq (toggle_computation fc s) = acq s"
    and "init_seq (toggle_computation fc s) = init_seq s"
    and "base_model (toggle_computation fc s) = base_model s"
    and "model (toggle_computation fc s) = model s"
    and "heap (toggle_computation fc s) = heap s"
    and "lengthscale_prior (toggle_computation fc s) = lengthscale_prior s"
    and "outputscale_prior (toggle_computation fc s) = outputscale_prior s"
    and "noise_prior (toggle_computation fc s) = noise_prior s"
    and "next_addr (toggle_computation fc s) = next_addr s"
    and "proposed_experiments (toggle_computation fc s) = proposed_experiments s"
  by (simp_all add: toggle_computation_def fast_computation_def)

lemma fit_score_append_Returned:
  assumes tm: "train_model s1 nr lr ti = Returned m s2"
    and ev: "evaluate (acq s2) m (obj s2) = Inr batch"
    and gr: "get_results (obj (s2\<lparr>proposed_experiments := batch\<rparr>))
               (proposed_experiments (s2\<lparr>proposed_experiments := batch\<rparr>)) True = Inr (delta, ob')"
  shows "results ob' = results (obj s1) @ delta" and "map fst delta = batch"
    and "length delta = acq_batch_size (acq s1)"
    and "set batch \<subseteq> set (eligible (acq s1) (obj s1))"
    and "domain ob' = domain (obj s1)" and "exindex ob' = exindex (obj s1)"
    and "computational_objective ob' = computational_objective (obj s1)"
    and "standardizer ob' = standardizer (obj s1)"
    and "unresolved ob' = unresolved (obj s1)"
proof -
  from tm have fs: "final_state (train_model s1 nr lr ti) = s2" by simp
  note fr = train_model_frame [OF fs]
  from gr have g: "get_results (obj s1) batch True = Inr (delta, ob')"
    by (simp add: fr)
  note gi = get_results_Inr [OF g]
  from ev have e: "evaluate (acq s1) m (obj s1) = Inr batch" by (simp add: fr)
  note ei = evaluate_Inr [OF e]
  show "results ob' = results (obj s1) @ delta" using gi(2) by simp
  show "map fst delta = batch" by (rule gi(1))
  then have "length delta = length batch" by (metis length_map)
  then show "length delta = acq_batch_size (acq s1)" using ei(1) by simp
  show "set batch \<subseteq> set (eligible (acq s1) (obj s1))" by (rule ei(2))
  show "domain ob' = domain (obj s1)" using gi(2) by simp
  show "exindex ob' = exindex (obj s1)" using gi(2) by simp
  show "computational_objective ob' = computational_objective (obj s1)" using gi(2) by simp
  show "standardizer ob' = standardizer (obj s1)" using gi(2) by simp
  show "unresolved ob' = unresolved (obj s1)" using gi(2) by simp
qed

lemma simulate_iteration_Returned:
  assumes "simulate_iteration fc up nr lr ti i s = Returned u s'"
  shows "\<exists>delta. results (obj s') = results (obj s) @ delta \<and>
           map fst delta = proposed_experiments s' \<and>
           length delta = acq_batch_size (acq s)"
    and "set (proposed_experiments s') \<subseteq> set (eligible (acq s) (obj s))"
    and "same_setup s s'"
proof -
  from assms obtain u1 s1 m s2 batch delta ob' where
    up: "update_priors_step up i (toggle_computation fc s) = Returned u1 s1"
    and tm: "train_model s1 nr lr ti = Returned m s2"
    and ev: "evaluate (acq s2) m (obj s2) = Inr batch"
    and gr: "get_results (obj (s2\<lparr>proposed_experiments := batch\<rparr>))
               (proposed_experiments (s2\<lparr>proposed_experiments := batch\<rparr>)) True = Inr (delta, ob')"
    and s': "s' = s2\<lparr>proposed_experiments := batch, obj := ob'\<rparr>"
    by (auto simp: simulate_iteration_def Let_def split: result.splits sum.splits prod.splits)
  from up have f1: "final_state (update_priors_step up i (toggle_computation fc s)) = s1"
    by simp
  note u = update_priors_step_frame [OF f1]
  note t = toggle_computation_frame [of fc s]
  from tm have f2: "final_state (train_model s1 nr lr ti) = s2" by simp
  note fr = train_model_frame [OF f2]
  note fsa = fit_score_append_Returned [OF tm ev gr]
  have o1: "obj s1 = obj s" using u(1) t(1) by simp
  have a1: "acq s1 = acq s" using u(2) t(2) by simp
  show "\<exists>delta. results (obj s') = results (obj s) @ delta \<and>
           map fst delta = proposed_experiments s' \<and>
           length delta = acq_batch_size (acq s)"
    using fsa(1,2,3) o1 a1 s' by auto
  show "set (proposed_experiments s') \<subseteq> set (eligible (acq s) (obj s))"
    using fsa(4) o1 a1 s' by simp
  show "same_setup s s'"
    using fsa(5-9) o1 a1 s' fr(2,3,4) u(2,3,4) t(2,3,4) by (simp add: same_setup_def)
qed

lemma simulate_iteration_Raised:
  assumes "simulate_iteration fc up nr lr ti i s = Raised e s'"
  shows "obj s' = obj s" and "same_setup s s'"
proof -
  let ?s0 = "toggle_computation fc s"
  note t = toggle_computation_frame [of fc s]
  have "obj s' = obj s \<and> acq s' = acq s \<and> init_seq s' = init_seq s \<and> base_model s' = base_model s"
  proof (cases "update_priors_step up i ?s0")
    case (Raised e1 s1)
    then have f1: "final_state (update_priors_step up i ?s0) = s1" by simp
    note u = update_priors_step_frame [OF f1]
    from assms Raised have "s' = s1" by (simp add: simulate_iteration_def)
    then show ?thesis using u(1-4) t(1-4) by simp
  next
    case (Returned u1 s1)
    then have f1: "final_state (update_priors_step up i ?s0) = s1" by simp
    note u = update_priors_step_frame [OF f1]
    show ?thesis
    proof (cases "train_model s1 nr lr ti")
      case (Raised e2 s2)
      then have f2: "final_state (train_model s1 nr lr ti) = s2" by simp
      note fr = train_model_frame [OF f2]
      from assms Returned Raised have "s' = s2" by (simp add: simulate_iteration_def)
      then show ?thesis using fr(1-4) u(1-4) t(1-4) by simp
    next
      case tm: (Returned m s2)
      then have f2: "final_state (train_model s1 nr lr ti) = s2" by simp
      note fr = train_model_frame [OF f2]
      from assms Returned tm have "s' = s2 \<or> (\<exists>b. s' = s2\<lparr>proposed_experiments := b\<rparr>)"
        by (auto simp: simulate_iteration_def Let_def split: sum.splits prod.splits)
      then show ?thesis using fr(1-4) u(1-4) t(1-4) by auto
    qed
  qed
  then show "obj s' = obj s" and "same_setup s s'" by (simp_all add: same_setup_def)
qed



lemma init_sample_external:
  "init_method (init_seq s) = External \<Longrightarrow>
   init_sample s seed app =
     Returned (map fst (results (obj s))) (s\<lparr>proposed_experiments := map fst (results (obj s))\<rparr>)"
  by (simp add: init_sample_def init_run_def results_input_def Let_def)

lemma clear_results_idem: "clear_results (clear_results ob) = clear_results ob"
  by (simp add: clear_results_def)

lemma init_sample_on_cleared:
  "init_method (init_seq s) \<noteq> External \<Longrightarrow>
   init_sample (s\<lparr>obj := clear_results (obj s)\<rparr>) seed app = init_sample s seed app"
  by (simp add: init_sample_def clear_results_idem)

lemma init_sample_sampling_Raised:
  assumes "init_method (init_seq s) \<noteq> External"
    and "init_sample s seed app = Raised e s'"
  shows "results (obj s') = []" and "same_setup s s'"
  using assms
  by (auto simp: init_sample_def Let_def clear_results_def same_setup_def
           split: sum.splits if_splits prod.splits)

lemma init_sample_sampling_Returned:
  assumes "init_method (init_seq s) \<noteq> External"
    and "init_sample s seed app = Returned batch s'"
  shows "sampler (init_seq s) (init_method (init_seq s)) (clear_results (obj s)) seed
           (init_batch_size (init_seq s)) = Inr batch"
    and "proposed_experiments s' = batch"
    and "map fst (results (obj s')) = (if app then batch else [])"
    and "same_setup s s'"
proof -
  let ?s1 = "s\<lparr>obj := clear_results (obj s)\<rparr>"
  from assms have run: "init_run (init_seq s) (clear_results (obj s)) seed = Inr batch"
    by (auto simp: init_sample_def Let_def split: sum.splits if_splits prod.splits)
  with assms(1) show "sampler (init_seq s) (init_method (init_seq s)) (clear_results (obj s)) seed
           (init_batch_size (init_seq s)) = Inr batch"
    by (simp add: init_run_def)
  show "proposed_experiments s' = batch"
    using assms by (auto simp: init_sample_def Let_def split: sum.splits if_splits prod.splits)
  show "map fst (results (obj s')) = (if app then batch else [])"
  proof (cases app)
    case False
    with assms run have "s' = ?s1\<lparr>proposed_experiments := batch\<rparr>"
      by (simp add: init_sample_def Let_def)
    then show ?thesis using False by (simp add: clear_results_def)
  next
    case True
    with assms run obtain delta ob' where
      g: "get_results (clear_results (obj s)) batch True = Inr (delta, ob')"
      and s': "s' = ?s1\<lparr>proposed_experiments := batch, obj := ob'\<rparr>"
      by (auto simp: init_sample_def Let_def split: sum.splits prod.splits)
    from get_results_Inr(1,2) [OF g] s' show ?thesis using True
      by (simp add: clear_results_def)
  qed
  show "same_setup s s'"
  proof (cases app)
    case False
    with assms run have "s' = ?s1\<lparr>proposed_experiments := batch\<rparr>"
      by (simp add: init_sample_def Let_def)
    then show ?thesis by (simp add: clear_results_def same_setup_def)
  next
    case True
    with assms run obtain delta ob' where
      g: "get_results (clear_results (obj s)) batch True = Inr (delta, ob')"
      and s': "s' = ?s1\<lparr>proposed_experiments := batch, obj := ob'\<rparr>"
      by (auto simp: init_sample_def Let_def split: sum.splits prod.splits)
    from get_results_Inr(2) [OF g] s' show ?thesis
      by (simp add: clear_results_def same_setup_def)
  qed
qed



lemma resolve_unresolved:
  assumes "computational_objective ob = None" and "exindex ob = []"
    and "unresolved ob c = Inl e"
  shows "resolve ob c = Inl e"
  using assms by (simp add: resolve_def)

lemma get_results_unresolved:
  assumes ns: "computational_objective ob = None" "exindex ob = []"
    and un: "\<And>c. unresolved ob c = Inl e"
  shows "cs \<noteq> [] \<Longrightarrow> get_results ob cs app = Inl e"
    and "get_results ob cs app = Inr (delta, ob') \<Longrightarrow> cs = [] \<and> results ob' = results ob"
proof -
  have f: "get_results ob cs app = Inl e" if "cs \<noteq> []" for cs
  proof -
    from that obtain c rest where "cs = c # rest" by (cases cs) auto
    with resolve_unresolved [OF ns un] show ?thesis by (simp add: get_results_def)
  qed
  then show "cs \<noteq> [] \<Longrightarrow> get_results ob cs app = Inl e" .
  assume g: "get_results ob cs app = Inr (delta, ob')"
  with f have "cs = []" by (cases "cs = []") auto
  with g show "cs = [] \<and> results ob' = results ob"
    by (auto simp: get_results_def split: if_splits)
qed

lemma simulate_iteration_resolves:
  assumes "simulate_iteration fc up nr lr ti i s = Returned u s'"
  shows "\<exists>delta. get_results (obj s) (proposed_experiments s') True = Inr (delta, obj s')"
proof -
  from assms obtain u1 s1 m s2 batch delta ob' where
    up: "update_priors_step up i (toggle_computation fc s) = Returned u1 s1"
    and tm: "train_model s1 nr lr ti = Returned m s2"
    and gr: "get_results (obj (s2\<lparr>proposed_experiments := batch\<rparr>))
               (proposed_experiments (s2\<lparr>proposed_experiments := batch\<rparr>)) True = Inr (delta, ob')"
    and s': "s' = s2\<lparr>proposed_experiments := batch, obj := ob'\<rparr>"
    by (auto simp: simulate_iteration_def Let_def split: result.splits sum.splits prod.splits)
  from up have f1: "final_state (update_priors_step up i (toggle_computation fc s)) = s1"
    by simp
  from tm have f2: "final_state (train_model s1 nr lr ti) = s2" by simp
  have "obj s2 = obj s"
    using update_priors_step_frame(1) [OF f1] toggle_computation_frame(1) [of fc s]
      train_model_frame(1) [OF f2] by simp
  with gr s' have "get_results (obj s) (proposed_experiments s') True = Inr (delta, obj s')"
    by simp
  then show ?thesis by blast
qed

lemma simulate_iteration_unresolved:
  assumes ns: "computational_objective (obj s) = None" "exindex (obj s) = []"
    and un: "\<And>c. unresolved (obj s) c = Inl e"
  shows "results (obj (final_state (simulate_iteration fc up nr lr ti i s))) = results (obj s)"
    and "same_setup s (final_state (simulate_iteration fc up nr lr ti i s))"
proof -
  have "results (obj (final_state (simulate_iteration fc up nr lr ti i s))) = results (obj s) \<and>
        same_setup s (final_state (simulate_iteration fc up nr lr ti i s))"
  proof (cases "simulate_iteration fc up nr lr ti i s")
    case (Returned u s')
    from simulate_iteration_resolves [OF Returned] obtain delta where
      "get_results (obj s) (proposed_experiments s') True = Inr (delta, obj s')" by blast
    from get_results_unresolved(2) [OF ns un this] simulate_iteration_Returned(3) [OF Returned]
      Returned
    show ?thesis by simp
  next
    case (Raised e' s')
    from simulate_iteration_Raised [OF Raised] Raised show ?thesis by simp
  qed
  then show "results (obj (final_state (simulate_iteration fc up nr lr ti i s))) = results (obj s)"
    and "same_setup s (final_state (simulate_iteration fc up nr lr ti i s))" by simp_all
qed

lemma simulate_loop_unresolved:
  assumes "computational_objective (obj s) = None" and "exindex (obj s) = []"
    and "\<And>c. unresolved (obj s) c = Inl e"
  shows "results (obj (final_state (simulate_loop fc up nr lr ti i n s))) = results (obj s)"
  using assms
proof (induction n arbitrary: i s)
  case 0
  then show ?case by simp
next
  case (Suc n)
  note it = simulate_iteration_unresolved [OF Suc.prems, of fc up nr lr ti i]
  show ?case
  proof (cases "simulate_iteration fc up nr lr ti i s")
    case (Raised e' s')
    with it(1) show ?thesis by simp
  next
    case (Returned u s')
    with it have r: "results (obj s') = results (obj s)" and ss: "same_setup s s'" by simp_all
    from ss Suc.prems have p: "computational_objective (obj s') = None" "exindex (obj s') = []"
      "\<And>c. unresolved (obj s') c = Inl e"
      by (simp_all add: same_setup_def)
    from Suc.IH [OF p, of "Suc i"] Returned r show ?thesis by simp
  qed
qed

lemma update_priors_step_first: "update_priors_step up 0 s = Returned () s"
  by (simp add: update_priors_step_def)

lemma first_iteration_unresolved:
  assumes ns: "computational_objective (obj s) = None" "exindex (obj s) = []"
    and un: "\<And>c. unresolved (obj s) c = Inl e"
    and tm: "train_model (toggle_computation fc s) nr lr ti = Returned m s1"
    and ev: "evaluate (acq s1) m (obj s1) = Inr batch" and ne: "batch \<noteq> []"
  shows "simulate_iteration fc up nr lr ti 0 s = Raised e (s1\<lparr>proposed_experiments := batch\<rparr>)"
proof -
  from tm have f: "final_state (train_model (toggle_computation fc s) nr lr ti) = s1" by simp
  have "obj s1 = obj s"
    using train_model_frame(1) [OF f] toggle_computation_frame(1) [of fc s] by simp
  with get_results_unresolved(1) [OF ns un ne, of True]
  have "get_results (obj s1) batch True = Inl e" by simp
  with tm ev show ?thesis
    by (simp add: simulate_iteration_def update_priors_step_first Let_def)
qed

lemma init_sample_prior_state:
  "prior_state (final_state (init_sample s seed app)) = prior_state s"
  by (auto simp: init_sample_def Let_def prior_state_def split: sum.splits prod.splits)

lemma update_priors_step_fast_mode:
  "prior_state (final_state (update_priors_step up i (s\<lparr>fast_mode := f\<rparr>))) =
   prior_state (final_state (update_priors_step up i s))"
  by (auto simp: update_priors_step_def carry_over_def Let_def prior_state_def
           split: option.splits prod.splits)

lemma update_priors_step_toggle:
  "prior_state (final_state (update_priors_step up i (toggle_computation fc s))) =
   prior_state (final_state (update_priors_step up i s))"
proof -
  from toggle_computation_state [of fc s] obtain f where
    "toggle_computation fc s = s\<lparr>fast_mode := f\<rparr>" by blast
  then show ?thesis by (simp add: update_priors_step_fast_mode)
qed

lemma simulate_iteration_Raised_priors:
  assumes "simulate_iteration fc up nr lr ti i s = Raised e s'"
  shows "prior_state s' = prior_state (final_state (update_priors_step up i s))"
proof -
  let ?t = "toggle_computation fc s"
  have "prior_state s' = prior_state (final_state (update_priors_step up i ?t))"
  proof (cases "update_priors_step up i ?t")
    case (Raised e1 s1)
    with assms show ?thesis by (simp add: simulate_iteration_def)
  next
    case (Returned u1 s1)
    show ?thesis
    proof (cases "train_model s1 nr lr ti")
      case (Raised e2 s2)
      then have f2: "final_state (train_model s1 nr lr ti) = s2" by simp
      from assms Returned Raised have "s' = s2" by (simp add: simulate_iteration_def)
      with train_model_frame(5-8) [OF f2] Returned show ?thesis
        by (simp add: prior_state_def)
    next
      case tm: (Returned m s2)
      then have f2: "final_state (train_model s1 nr lr ti) = s2" by simp
      from assms Returned tm have "s' = s2 \<or> (\<exists>b. s' = s2\<lparr>proposed_experiments := b\<rparr>)"
        by (auto simp: simulate_iteration_def Let_def split: sum.splits prod.splits)
      with train_model_frame(5-8) [OF f2] Returned show ?thesis
        by (auto simp: prior_state_def)
    qed
  qed
  then show ?thesis by (simp add: update_priors_step_toggle)
qed

lemma simulate_loop_Raised:
  "simulate_loop fc up nr lr ti i n s = Raised e s' \<Longrightarrow>
   \<exists>k<n. \<exists>sk. simulate_loop fc up nr lr ti i k s = Returned () sk \<and>
     simulate_iteration fc up nr lr ti (i + k) sk = Raised e s'"
proof (induction n arbitrary: i s)
  case 0
  then show ?case by simp
next
  case (Suc n)
  show ?case
  proof (cases "simulate_iteration fc up nr lr ti i s")
    case (Raised e1 s1)
    with Suc.prems have "e1 = e" "s1 = s'" by simp_all
    with Raised have "simulate_loop fc up nr lr ti i 0 s = Returned () s \<and>
      simulate_iteration fc up nr lr ti (i + 0) s = Raised e s'" by simp
    then show ?thesis by blast
  next
    case (Returned u1 s1)
    with Suc.prems have "simulate_loop fc up nr lr ti (Suc i) n s1 = Raised e s'" by simp
    from Suc.IH [OF this] obtain k sk where k: "k < n"
      and l: "simulate_loop fc up nr lr ti (Suc i) k s1 = Returned () sk"
      and it: "simulate_iteration fc up nr lr ti (Suc i + k) sk = Raised e s'" by blast
    from Returned l have "simulate_loop fc up nr lr ti i (Suc k) s = Returned () sk" by simp
    moreover from it have "simulate_iteration fc up nr lr ti (i + Suc k) sk = Raised e s'" by simp
    moreover from k have "Suc k < Suc n" by simp
    ultimately show ?thesis by blast
  qed
qed

lemma run_Raised:
  assumes "run s app nr lr ti = Raised e s'"
  shows "obj s' = obj s" and "heap s' = heap s"
    and "lengthscale_prior s' = lengthscale_prior s"
    and "outputscale_prior s' = outputscale_prior s"
    and "noise_prior s' = noise_prior s"
proof -
  have "obj s' = obj s \<and> heap s' = heap s \<and> lengthscale_prior s' = lengthscale_prior s \<and>
        outputscale_prior s' = outputscale_prior s \<and> noise_prior s' = noise_prior s"
  proof (cases "train_model s nr lr ti")
    case (Raised e1 s1)
    then have f: "final_state (train_model s nr lr ti) = s1" by simp
    from assms Raised have "s' = s1" by (simp add: run_def)
    then show ?thesis using train_model_frame(1,5,6,7,8) [OF f] by simp
  next
    case (Returned m s1)
    then have f: "final_state (train_model s nr lr ti) = s1" by simp
    from assms Returned have "s' = s1 \<or> (\<exists>b. s' = s1\<lparr>proposed_experiments := b\<rparr>)"
      by (auto simp: run_def Let_def split: sum.splits prod.splits if_splits)
    then show ?thesis using train_model_frame(1,5,6,7,8) [OF f] by auto
  qed
  then show "obj s' = obj s" and "heap s' = heap s"
    and "lengthscale_prior s' = lengthscale_prior s"
    and "outputscale_prior s' = outputscale_prior s"
    and "noise_prior s' = noise_prior s" by simp_all
qed

lemma carry_over_separate:
  assumes "carry_over s = Returned u s'" and "refs_allocated s" and "separate_priors s"
  shows "\<exists>m post_ls post_os post_n.
           model s = Some m \<and> gp_estimates m = Some (post_ls, post_os, post_n) \<and>
           prior_value s' (lengthscale_prior s') =
             Some (prior_object s (lengthscale_prior s), post_ls) \<and>
           prior_value s' (outputscale_prior s') =
             Some (prior_object s (outputscale_prior s), post_os) \<and>
           prior_value s' (noise_prior s') =
             Some (prior_object s (noise_prior s), post_n)"
    and "refs_allocated s'" and "separate_priors s'"
proof -
  from assms(1) obtain m post_ls post_os post_n where
    m: "model s = Some m" "gp_estimates m = Some (post_ls, post_os, post_n)"
    by (auto simp: carry_over_def split: option.splits)
  have "(prior_value s' (lengthscale_prior s') =
             Some (prior_object s (lengthscale_prior s), post_ls) \<and>
           prior_value s' (outputscale_prior s') =
             Some (prior_object s (outputscale_prior s), post_os) \<and>
           prior_value s' (noise_prior s') =
             Some (prior_object s (noise_prior s), post_n)) \<and>
        refs_allocated s' \<and> separate_priors s'"
    using assms m
    by (cases "lengthscale_prior s"; cases "outputscale_prior s"; cases "noise_prior s")
       (auto simp: carry_over_def Let_def prior_value_def deref_def prior_object_def
          refs_allocated_def separate_priors_def)
  with m show "\<exists>m post_ls post_os post_n.
           model s = Some m \<and> gp_estimates m = Some (post_ls, post_os, post_n) \<and>
           prior_value s' (lengthscale_prior s') =
             Some (prior_object s (lengthscale_prior s), post_ls) \<and>
           prior_value s' (outputscale_prior s') =
             Some (prior_object s (outputscale_prior s), post_os) \<and>
           prior_value s' (noise_prior s') =
             Some (prior_object s (noise_prior s), post_n)"
    and "refs_allocated s'" and "separate_priors s'" by simp_all
qed

lemma simulate_iteration_priors:
  assumes "simulate_iteration fc up nr lr ti i s = Returned u s'"
  shows "\<exists>s1. update_priors_step up i (toggle_computation fc s) = Returned () s1 \<and>
           heap s' = heap s1 \<and> lengthscale_prior s' = lengthscale_prior s1 \<and>
           outputscale_prior s' = outputscale_prior s1 \<and> noise_prior s' = noise_prior s1 \<and>
           next_addr s' = next_addr s1"
proof -
  from assms obtain u1 s1 m s2 batch delta ob' where
    up: "update_priors_step up i (toggle_computation fc s) = Returned u1 s1"
    and tm: "train_model s1 nr lr ti = Returned m s2"
    and s': "s' = s2\<lparr>proposed_experiments := batch, obj := ob'\<rparr>"
    by (auto simp: simulate_iteration_def Let_def split: result.splits sum.splits prod.splits)
  from tm have f2: "final_state (train_model s1 nr lr ti) = s2" by simp
  note fr = train_model_frame [OF f2]
  from up s' fr(5-9) show ?thesis by simp
qed

lemma toggle_computation_priors:
  "prior_object (toggle_computation fc s) p = prior_object s p"
  "refs_allocated (toggle_computation fc s) = refs_allocated s"
  "separate_priors (toggle_computation fc s) = separate_priors s"
  by (simp_all add: prior_object_def refs_allocated_def separate_priors_def
        toggle_computation_frame split: option.splits)

lemma same_priors:
  assumes "heap s' = heap s" and "lengthscale_prior s' = lengthscale_prior s"
    and "outputscale_prior s' = outputscale_prior s" and "noise_prior s' = noise_prior s"
    and "next_addr s' = next_addr s"
  shows "prior_value s' p = prior_value s p" and "refs_allocated s' = refs_allocated s"
    and "separate_priors s' = separate_priors s"
  using assms
  by (simp_all add: prior_value_def refs_allocated_def separate_priors_def split: option.splits)

section \<open>Properties of the model slot\<close>







section \<open>Properties of the sorts and of the computation switch\<close>

lemma stable_sort_desc_sorts: "sorts_descending stable_sort_desc rows"
proof -
  have "sorted (map (\<lambda>r. - snd r) (sort_key (\<lambda>r. - snd r) rows))"
    by (rule sorted_sort_key)
  then have "sorted_wrt (\<lambda>a b. snd b \<le> snd a) (sort_key (\<lambda>r. - snd r) rows)"
    by (simp add: sorted_map)
  then show ?thesis by (simp add: sorts_descending_def stable_sort_desc_def)
qed

lemma filter_key_distinct:
  "distinct (map f xs) \<Longrightarrow> k \<in> set xs \<Longrightarrow> filter (\<lambda>x. f k = f x) xs = [k]"
proof (induction xs)
  case Nil
  then show ?case by simp
next
  case (Cons x xs)
  show ?case
  proof (cases "k = x")
    case True
    from Cons.prems(1) have "f x \<notin> f ` set xs" by simp
    then have "\<forall>y \<in> set xs. f y \<noteq> f x" by (metis imageI)
    then have "filter (\<lambda>y. f x = f y) xs = []" by (auto simp: filter_empty_conv)
    with True show ?thesis by simp
  next
    case False
    with Cons.prems have k: "k \<in> set xs" and d: "distinct (map f xs)" by simp_all
    from Cons.prems(1) have "f x \<notin> f ` set xs" by simp
    with k have "f k \<noteq> f x" by (metis imageI)
    with Cons.IH [OF d k] show ?thesis by simp
  qed
qed

lemma descending_sort_unique:
  assumes "sorts_descending srt rows" and "distinct (map snd rows)"
  shows "srt rows = stable_sort_desc rows"
proof -
  let ?f = "\<lambda>r::observation. - snd r"
  from assms(1) have m: "mset (srt rows) = mset rows"
    and s: "sorted_wrt (\<lambda>a b. snd b \<le> snd a) (srt rows)"
    by (simp_all add: sorts_descending_def)
  from assms(2) have dx: "distinct (map ?f rows)"
    by (simp add: distinct_map inj_on_def)
  from m have "mset (map ?f (srt rows)) = mset (map ?f rows)" by simp
  from mset_eq_imp_distinct_iff [OF this] dx have dy: "distinct (map ?f (srt rows))" by simp
  have f: "filter (\<lambda>x. ?f k = ?f x) (srt rows) = filter (\<lambda>x. ?f k = ?f x) rows"
    if "k \<in> set (srt rows)" for k
  proof -
    from that m have "k \<in> set rows" by (metis mset_eq_setD)
    from filter_key_distinct [OF dy that] filter_key_distinct [OF dx this]
    show ?thesis by simp
  qed
  from s have "sorted (map ?f (srt rows))" by (simp add: sorted_map)
  from properties_for_sort_key [OF m f this] show ?thesis
    by (simp add: stable_sort_desc_def)
qed

lemma stable_sort_desc_ties:
  "ties_in_insertion_order rows (take n (stable_sort_desc rows))"
proof -
  have "prefix (filter (\<lambda>r. snd r = v) (take n (stable_sort_desc rows)))
          (filter (\<lambda>r. snd r = v) rows)" for v
  proof -
    have "filter (\<lambda>r. - snd r = - v) (sort_key (\<lambda>r. - snd r) rows)
            = filter (\<lambda>r. - snd r = - v) rows"
      by (rule sort_key_stable)
    then have e: "filter (\<lambda>r. snd r = v) (stable_sort_desc rows) = filter (\<lambda>r. snd r = v) rows"
      by (simp add: stable_sort_desc_def)
    have "prefix (filter (\<lambda>r. snd r = v) (take n (stable_sort_desc rows)))
            (filter (\<lambda>r. snd r = v) (stable_sort_desc rows))"
      by (rule filter_mono_prefix) (rule take_is_prefix)
    with e show ?thesis by simp
  qed
  then show ?thesis by (simp add: ties_in_insertion_order_def list_all_iff)
qed

text \<open>
  What \<open>best\<close> returns, whatever sort meets the library's description: the first
  five rows of the results table in descending order of outcome, or all rows if there
  are fewer, and no row left out has a greater outcome than a returned one. When no two
  rows have equal outcomes the result is the one a stable sort gives, and a stable sort
  keeps rows with equal outcomes in insertion order.
\<close>

lemma best_descending_top_five:
  assumes "sorts_descending sort_values (results_input (obj s))"
  shows "length (best sort_values s) = min 5 (length (results_input (obj s))) \<and>
         sorted_wrt (\<lambda>a b. snd b \<le> snd a) (best sort_values s) \<and>
         (\<exists>rest. mset (best sort_values s) + mset rest = mset (results_input (obj s)) \<and>
            (\<forall>b \<in> set (best sort_values s). \<forall>r \<in> set rest. snd r \<le> snd b)) \<and>
         (distinct (map snd (results_input (obj s))) \<longrightarrow>
            best sort_values s = best stable_sort_desc s) \<and>
         ties_in_insertion_order (results_input (obj s)) (best stable_sort_desc s)"
proof -
  let ?rows = "results_input (obj s)"
  let ?ys = "sort_values ?rows"
  from assms have m: "mset ?ys = mset ?rows"
    and sd: "sorted_wrt (\<lambda>a b. snd b \<le> snd a) ?ys"
    by (simp_all add: sorts_descending_def)
  from m have "length ?ys = length ?rows" by (rule mset_eq_length)
  then have a: "length (best sort_values s) = min 5 (length ?rows)"
    by (simp add: best_def)
  from sd have b: "sorted_wrt (\<lambda>a b. snd b \<le> snd a) (best sort_values s)"
    unfolding best_def by (rule sorted_wrt_take)
  have split: "take 5 ?ys @ drop 5 ?ys = ?ys" by simp
  from sd have "sorted_wrt (\<lambda>a b. snd b \<le> snd a) (take 5 ?ys @ drop 5 ?ys)" by simp
  then have le: "\<forall>b \<in> set (take 5 ?ys). \<forall>r \<in> set (drop 5 ?ys). snd r \<le> snd b"
    by (simp only: sorted_wrt_append) blast
  have "mset (take 5 ?ys) + mset (drop 5 ?ys) = mset ?ys"
    by (simp only: mset_append [symmetric] split)
  with m le have c: "\<exists>rest. mset (best sort_values s) + mset rest = mset ?rows \<and>
            (\<forall>b \<in> set (best sort_values s). \<forall>r \<in> set rest. snd r \<le> snd b)"
    unfolding best_def by metis
  have d: "distinct (map snd ?rows) \<longrightarrow> best sort_values s = best stable_sort_desc s"
    using descending_sort_unique [OF assms] by (simp add: best_def)
  have e: "ties_in_insertion_order ?rows (best stable_sort_desc s)"
    unfolding best_def by (rule stable_sort_desc_ties)
  from a b c d e show ?thesis by blast
qed

lemma toggle_computation_cases:
  "toggle_computation (PyBool True) s = fast_computation True s"
  "toggle_computation (PyBool False) s = fast_computation False s"
  "k \<noteq> 0 \<Longrightarrow> k \<noteq> 1 \<Longrightarrow>
   toggle_computation (PyInt k) s =
     (if k < int (length (results (obj s))) then fast_computation True s else s)"
  by (simp_all add: toggle_computation_def py_eq_def py_lt_len_def obj_y_def)

lemmas example_defs = rand_bo_def external_bo_def example_bo_def BO_def example_objective_def
  example_store_def example_sampler_def example_score_def example_model_def

lemmas bo_defs = simulate_def init_sample_def init_run_def clear_results_def results_input_def
  get_results_def resolve_def simulate_iteration_def
  toggle_computation_def fast_computation_def py_eq_def py_lt_len_def update_priors_step_def
  carry_over_def is_GP_def train_model_def training_data_def obj_X_def obj_y_def deref_def
  evaluate_def eligible_def standardize_def run_def Let_def

section \<open>Verified properties of the optimization loop\<close>

subsection \<open>Initialization\<close>

text \<open>
  C9. \<open>init_sample\<close> clears the ResultSet before sampling for every initialization
  method except \<open>external\<close>: the call behaves as on the cleared store, the sampler
  is run on the cleared store, and whether the call raises or returns, no earlier
  observation is left (the ResultSet is empty, or holds exactly the outcomes of the
  returned batch when \<open>append\<close> is set). With the method \<open>external\<close> the call
  always returns, leaves the objective store as it was, and returns the configurations
  of the externally provided results.
\<close>

theorem init_sample_clears_unless_external:
  "(init_method (init_seq s) \<noteq> External \<longrightarrow>
      init_sample s seed app = init_sample (s\<lparr>obj := clear_results (obj s)\<rparr>) seed app \<and>
      (\<forall>e s'. init_sample s seed app = Raised e s' \<longrightarrow> results (obj s') = []) \<and>
      (\<forall>batch s'. init_sample s seed app = Returned batch s' \<longrightarrow>
         sampler (init_seq s) (init_method (init_seq s)) (clear_results (obj s)) seed
           (init_batch_size (init_seq s)) = Inr batch \<and>
         map fst (results (obj s')) = (if app then batch else []))) \<and>
   (init_method (init_seq s) = External \<longrightarrow>
      (\<exists>s'. init_sample s seed app = Returned (map fst (results (obj s))) s' \<and>
            obj s' = obj s))"
proof (cases "init_method (init_seq s) = External")
  case True
  then show ?thesis using init_sample_external [of s seed app] by simp
next
  case False
  then show ?thesis
    using init_sample_on_cleared [of s seed app] init_sample_sampling_Raised(1) [of s seed app]
      init_sample_sampling_Returned(1,3) [of s seed app]
    by (intro conjI impI allI) simp_all
qed

theorem init_sample_clears_unless_external_witness:
  "results (obj rand_bo) = [([2], 5)] \<and>
   has_returned (init_sample rand_bo None False) \<and>
   results (obj (final_state (init_sample rand_bo None False))) = [] \<and>
   init_sample external_bo None True =
     Returned [[0]] (final_state (init_sample external_bo None True)) \<and>
   obj (final_state (init_sample external_bo None True)) = obj external_bo"
proof -
  obtain b s' where r: "init_sample rand_bo None False = Returned b s'"
    by (cases "init_sample rand_bo None False") (simp_all add: example_defs bo_defs)
  have m: "init_method (init_seq rand_bo) \<noteq> External"
    "init_method (init_seq external_bo) = External"
    "map fst (results (obj external_bo)) = [[0]]"
    "results (obj rand_bo) = [([2], 5)]"
    by (simp_all add: example_defs)
  from init_sample_clears_unless_external [of rand_bo None False] m(1) r
  have "map fst (results (obj s')) = []" by simp
  moreover
  from init_sample_clears_unless_external [of external_bo None True] m(2,3)
  obtain s2 where "init_sample external_bo None True = Returned [[0]] s2"
    and "obj s2 = obj external_bo" by auto
  ultimately show ?thesis using r m(4) by simp
qed

text \<open>
  C10. \<open>init_sample\<close> appends the outcomes of its batch only when \<open>append\<close> is
  set and the method is not \<open>external\<close>: then the ResultSet is the resolved batch;
  in every other case nothing is appended (the ResultSet is empty after the clearing,
  or, for \<open>external\<close>, the objective store is exactly the one before the call,
  whatever \<open>append\<close> is).
\<close>

theorem init_sample_append_guard:
  assumes "init_sample s seed app = Returned batch s'"
  shows "(app \<and> init_method (init_seq s) \<noteq> External \<longrightarrow>
            map fst (results (obj s')) = batch) \<and>
         (\<not> (app \<and> init_method (init_seq s) \<noteq> External) \<longrightarrow>
            results (obj s') =
              (if init_method (init_seq s) = External then results (obj s) else [])) \<and>
         (init_method (init_seq s) = External \<longrightarrow> obj s' = obj s)"
proof (cases "init_method (init_seq s) = External")
  case True
  with assms show ?thesis using init_sample_external [of s seed app] by auto
next
  case False
  from init_sample_sampling_Returned(3) [OF False assms] False show ?thesis by auto
qed

theorem init_sample_append_guard_witness:
  "init_sample external_bo None True = Returned [[0]] (external_bo\<lparr>proposed_experiments := [[0]]\<rparr>) \<and>
   obj (external_bo\<lparr>proposed_experiments := [[0]]\<rparr>) = obj external_bo \<and>
   has_returned (init_sample rand_bo None True) \<and>
   map fst (results (obj (final_state (init_sample rand_bo None True)))) = [[0]] \<and>
   has_returned (init_sample rand_bo None False) \<and>
   results (obj (final_state (init_sample rand_bo None False))) = []"
proof -
  have e: "init_sample external_bo None True =
             Returned [[0]] (external_bo\<lparr>proposed_experiments := [[0]]\<rparr>)"
    by (simp add: example_defs bo_defs)
  obtain b1 s1 where r1: "init_sample rand_bo None True = Returned b1 s1"
    by (cases "init_sample rand_bo None True") (simp_all add: example_defs bo_defs)
  have b1: "b1 = [[0]]" using r1 by (simp add: example_defs bo_defs)
  obtain b2 s2 where r2: "init_sample rand_bo None False = Returned b2 s2"
    by (cases "init_sample rand_bo None False") (simp_all add: example_defs bo_defs)
  have m1: "init_method (init_seq rand_bo) = Rand" by (simp add: example_defs)
  have m2: "init_method (init_seq external_bo) = External" by (simp add: example_defs)
  from init_sample_append_guard [OF e] init_sample_append_guard [OF r1]
    init_sample_append_guard [OF r2] e r1 r2 b1 m1 m2
  show ?thesis by simp
qed

subsection \<open>Size of the ResultSet\<close>





subsection \<open>Failures\<close>

text \<open>
  C2, as the code has it. \<open>simulate\<close> has no check for an outcome source and does
  not refuse to start: its first step is \<open>init_sample\<close>. Take an instance with
  neither a computational objective nor an experiment index, whose objective store
  raises an error \<open>e\<close> for a candidate it cannot resolve. With the method
  \<open>external\<close> and no iteration asked for, the call returns, with the externally
  supplied configurations as proposed batch. With a sampling method, when the sampler
  returns a non-empty batch, the call fails with \<open>e\<close> after the ResultSet has been
  cleared and the batch stored. With \<open>external\<close> and at least one iteration, when
  the first fit succeeds and the acquisition returns a non-empty batch, the call fails
  with \<open>e\<close> after the surrogate has been put in the model slot and the batch
  stored. In no case is an observation appended: the ResultSet ends as the
  initialization leaves it, cleared, or untouched for \<open>external\<close>.
\<close>

theorem simulate_without_outcome_source:
  assumes "computational_objective (obj s) = None" and "exindex (obj s) = []"
    and "\<And>c. unresolved (obj s) c = Inl e"
  shows "(init_method (init_seq s) = External \<and> N = 0 \<longrightarrow>
            simulate s N seed fc up nr lr ti =
              Returned () (s\<lparr>proposed_experiments := map fst (results (obj s))\<rparr>)) \<and>
         (\<forall>b. init_method (init_seq s) \<noteq> External \<and> b \<noteq> [] \<and>
               sampler (init_seq s) (init_method (init_seq s)) (clear_results (obj s)) seed
                 (init_batch_size (init_seq s)) = Inr b \<longrightarrow>
               simulate s N seed fc up nr lr ti =
                 Raised e (s\<lparr>obj := clear_results (obj s), proposed_experiments := b\<rparr>)) \<and>
         (\<forall>m s1 batch. init_method (init_seq s) = External \<and> 0 < N \<and> batch \<noteq> [] \<and>
               train_model
                 (toggle_computation fc (s\<lparr>proposed_experiments := map fst (results (obj s))\<rparr>))
                 nr lr ti = Returned m s1 \<and>
               evaluate (acq s1) m (obj s1) = Inr batch \<longrightarrow>
               simulate s N seed fc up nr lr ti =
                 Raised e (s1\<lparr>proposed_experiments := batch\<rparr>)) \<and>
         results (obj (final_state (simulate s N seed fc up nr lr ti))) =
            (if init_method (init_seq s) = External then results (obj s) else [])"
proof (cases "init_method (init_seq s) = External")
  case True
  let ?s0 = "s\<lparr>proposed_experiments := map fst (results (obj s))\<rparr>"
  have i: "init_sample s seed True = Returned (map fst (results (obj s))) ?s0"
    using True by (rule init_sample_external)
  have ns0: "computational_objective (obj ?s0) = None" "exindex (obj ?s0) = []"
    "\<And>c. unresolved (obj ?s0) c = Inl e"
    using assms by simp_all
  have sim: "simulate s N seed fc up nr lr ti = simulate_loop fc up nr lr ti 0 N ?s0"
    using i by (simp add: simulate_def)
  have a: "N = 0 \<longrightarrow> simulate s N seed fc up nr lr ti = Returned () ?s0"
  proof
    assume "N = 0"
    with sim show "simulate s N seed fc up nr lr ti = Returned () ?s0" by simp
  qed
  have c: "simulate s N seed fc up nr lr ti = Raised e (s1\<lparr>proposed_experiments := batch\<rparr>)"
    if "0 < N" and "batch \<noteq> []"
      and "train_model (toggle_computation fc ?s0) nr lr ti = Returned m s1"
      and "evaluate (acq s1) m (obj s1) = Inr batch" for m s1 batch
  proof -
    from that(1) obtain n where N: "N = Suc n" by (cases N) simp_all
    from first_iteration_unresolved [OF ns0 that(3,4,2), of up]
    show ?thesis using sim N by simp
  qed
  have d: "results (obj (final_state (simulate s N seed fc up nr lr ti))) = results (obj s)"
    using simulate_loop_unresolved [OF ns0, of fc up nr lr ti 0 N] sim by simp
  from a c d True show ?thesis by simp
next
  case False
  let ?c = "s\<lparr>obj := clear_results (obj s)\<rparr>"
  have nsc: "computational_objective (clear_results (obj s)) = None"
    "exindex (clear_results (obj s)) = []"
    "\<And>c. unresolved (clear_results (obj s)) c = Inl e"
    using assms by (simp_all add: clear_results_def)
  have b: "simulate s N seed fc up nr lr ti =
             Raised e (s\<lparr>obj := clear_results (obj s), proposed_experiments := b\<rparr>)"
    if "b \<noteq> []"
      and "sampler (init_seq s) (init_method (init_seq s)) (clear_results (obj s)) seed
             (init_batch_size (init_seq s)) = Inr b" for b
    using that False get_results_unresolved(1) [OF nsc that(1), of True]
    by (simp add: simulate_def init_sample_def init_run_def Let_def)
  have d: "results (obj (final_state (simulate s N seed fc up nr lr ti))) = []"
  proof (cases "init_sample s seed True")
    case (Raised e0 s0)
    from init_sample_sampling_Raised(1) [OF False Raised] Raised show ?thesis
      by (simp add: simulate_def)
  next
    case (Returned b0 s0)
    then obtain delta where
      g: "get_results (clear_results (obj s)) b0 True = Inr (delta, obj s0)"
      using False
      by (auto simp: init_sample_def init_run_def Let_def split: sum.splits prod.splits)
    from get_results_unresolved(2) [OF nsc g] have r0: "results (obj s0) = []"
      by (simp add: clear_results_def)
    from init_sample_sampling_Returned(4) [OF False Returned] assms
    have ns0: "computational_objective (obj s0) = None" "exindex (obj s0) = []"
      "\<And>c. unresolved (obj s0) c = Inl e"
      by (simp_all add: same_setup_def)
    from simulate_loop_unresolved [OF ns0, of fc up nr lr ti 0 N] Returned r0
    show ?thesis by (simp add: simulate_def)
  qed
  from b d False show ?thesis by simp
qed

theorem simulate_without_outcome_source_counterexample:
  "computational_objective (obj (no_source_bo External)) = None \<and>
   exindex (obj (no_source_bo External)) = [] \<and>
   has_returned (simulate (no_source_bo External) 0 None (PyBool False) False 0 (1/10) 100) \<and>
   computational_objective (obj (no_source_bo Rand)) = None \<and>
   exindex (obj (no_source_bo Rand)) = [] \<and>
   results (obj (no_source_bo Rand)) = [([2], 5)] \<and>
   proposed_experiments (no_source_bo Rand) = [] \<and>
   raised_error (simulate (no_source_bo Rand) 1 None (PyBool False) False 0 (1/10) 100)
     = Some KeyError \<and>
   results (obj (final_state
     (simulate (no_source_bo Rand) 1 None (PyBool False) False 0 (1/10) 100))) = [] \<and>
   proposed_experiments (final_state
     (simulate (no_source_bo Rand) 1 None (PyBool False) False 0 (1/10) 100)) = [[0]]"
  by (simp add: example_defs no_source_bo_def bo_defs)

theorem simulate_without_outcome_source_witness:
  "computational_objective (obj (no_source_bo Rand)) = None \<and>
   exindex (obj (no_source_bo Rand)) = [] \<and>
   (\<forall>c. unresolved (obj (no_source_bo Rand)) c = Inl KeyError) \<and>
   simulate (no_source_bo Rand) 3 None (PyBool False) False 0 (1/10) 100 =
     Raised KeyError
       ((no_source_bo Rand)\<lparr>obj := clear_results (obj (no_source_bo Rand)),
                             proposed_experiments := [[0]]\<rparr>) \<and>
   results (obj (final_state
     (simulate (no_source_bo Rand) 3 None (PyBool False) False 0 (1/10) 100))) = [] \<and>
   simulate (no_source_bo External) 0 None (PyBool False) False 0 (1/10) 100 =
     Returned () ((no_source_bo External)\<lparr>proposed_experiments := [[2]]\<rparr>)"
proof -
  have ns: "computational_objective (obj (no_source_bo m)) = None"
    "exindex (obj (no_source_bo m)) = []"
    "\<And>c. unresolved (obj (no_source_bo m)) c = Inl KeyError" for m
    by (simp_all add: example_defs no_source_bo_def)
  have m: "init_method (init_seq (no_source_bo Rand)) \<noteq> External"
    "init_method (init_seq (no_source_bo External)) = External"
    "map fst (results (obj (no_source_bo External))) = [[2]]"
    by (simp_all add: example_defs no_source_bo_def)
  have sm: "sampler (init_seq (no_source_bo Rand)) (init_method (init_seq (no_source_bo Rand)))
              (clear_results (obj (no_source_bo Rand))) None
              (init_batch_size (init_seq (no_source_bo Rand))) = Inr [[0]]"
    by (simp add: example_defs no_source_bo_def clear_results_def)
  from simulate_without_outcome_source
         [OF ns, where N = 3 and seed = None and fc = "PyBool False" and up = False
            and nr = 0 and lr = "1/10" and ti = 100, of Rand]
       simulate_without_outcome_source
         [OF ns, where N = 0 and seed = None and fc = "PyBool False" and up = False
            and nr = 0 and lr = "1/10" and ti = 100, of External]
       m sm ns
  show ?thesis by (simp add: clear_results_def)
qed

text \<open>
  C6, as the code has it. A failure aborts the call at the failing step and nothing is
  rolled back. When \<open>run\<close> fails, the objective store and the prior specifications
  are those before the call. When \<open>simulate\<close> fails in the initialization, the
  ResultSet is the cleared one and the prior state is the one before the call. When it
  fails in the iteration with index \<open>k < N\<close>, the failing iteration has appended
  nothing: the objective store is the one that \<open>simulate\<close> with \<open>k\<close>
  iterations leaves, and the prior state is the one those \<open>k\<close> iterations and the
  carryover step of the failing iteration leave, so estimates that carryover has
  written stay written.
\<close>

theorem failure_keeps_completed_steps:
  "(run s app nr lr ti = Raised e s' \<longrightarrow>
      obj s' = obj s \<and> heap s' = heap s \<and> lengthscale_prior s' = lengthscale_prior s \<and>
      outputscale_prior s' = outputscale_prior s \<and> noise_prior s' = noise_prior s) \<and>
   (simulate s N seed fc up nr lr ti = Raised e s' \<longrightarrow>
      (init_sample s seed True = Raised e s' \<and> init_method (init_seq s) \<noteq> External \<and>
       results (obj s') = [] \<and> prior_state s' = prior_state s) \<or>
      (\<exists>k<N. \<exists>sk. simulate s k seed fc up nr lr ti = Returned () sk \<and> obj s' = obj sk \<and>
         prior_state s' = prior_state (final_state (update_priors_step up k sk))))"
proof (rule conjI; rule impI)
  assume "run s app nr lr ti = Raised e s'"
  from run_Raised [OF this]
  show "obj s' = obj s \<and> heap s' = heap s \<and> lengthscale_prior s' = lengthscale_prior s \<and>
      outputscale_prior s' = outputscale_prior s \<and> noise_prior s' = noise_prior s"
    by simp
next
  assume sim: "simulate s N seed fc up nr lr ti = Raised e s'"
  show "(init_sample s seed True = Raised e s' \<and> init_method (init_seq s) \<noteq> External \<and>
       results (obj s') = [] \<and> prior_state s' = prior_state s) \<or>
      (\<exists>k<N. \<exists>sk. simulate s k seed fc up nr lr ti = Returned () sk \<and> obj s' = obj sk \<and>
         prior_state s' = prior_state (final_state (update_priors_step up k sk)))"
  proof (cases "init_sample s seed True")
    case (Raised e0 s0)
    with sim have eq: "e0 = e" "s0 = s'" by (simp_all add: simulate_def)
    have ne: "init_method (init_seq s) \<noteq> External"
      using Raised init_sample_external [of s seed True] by auto
    have "prior_state s' = prior_state s"
      using init_sample_prior_state [of s seed True] Raised eq by simp
    with init_sample_sampling_Raised(1) [OF ne] Raised eq ne show ?thesis by simp
  next
    case (Returned b0 s0)
    with sim have "simulate_loop fc up nr lr ti 0 N s0 = Raised e s'"
      by (simp add: simulate_def)
    from simulate_loop_Raised [OF this] obtain k sk where k: "k < N"
      and l: "simulate_loop fc up nr lr ti 0 k s0 = Returned () sk"
      and it: "simulate_iteration fc up nr lr ti (0 + k) sk = Raised e s'" by blast
    from Returned l have "simulate s k seed fc up nr lr ti = Returned () sk"
      by (simp add: simulate_def)
    moreover from simulate_iteration_Raised(1) [OF it] have "obj s' = obj sk" .
    moreover from simulate_iteration_Raised_priors [OF it]
    have "prior_state s' = prior_state (final_state (update_priors_step up k sk))" by simp
    ultimately show ?thesis using k by blast
  qed
qed

theorem failure_keeps_completed_steps_counterexample:
  "raised_error (simulate external_bo 2 None (PyBool False) True 0 (1/10) 100)
     = Some InsufficientCandidatesError \<and>
   results (obj external_bo) = [([0], 1)] \<and>
   results (obj (final_state (simulate external_bo 2 None (PyBool False) True 0 (1/10) 100)))
     = [([0], 1), ([1], 1)] \<and>
   prior_value external_bo (lengthscale_prior external_bo) = Some (Some (GammaPrior 2 (1/5)), 5) \<and>
   prior_value (final_state (simulate external_bo 2 None (PyBool False) True 0 (1/10) 100))
     (lengthscale_prior (final_state (simulate external_bo 2 None (PyBool False) True 0 (1/10) 100)))
     = Some (Some (GammaPrior 2 (1/5)), 2)"
  by (simp add: example_defs prior_value_def bo_defs numeral_2_eq_2)

theorem failure_keeps_completed_steps_witness:
  "run empty_bo True 0 (1/10) 100 = Raised EmptyDataError empty_bo \<and>
   raised_error (simulate external_bo 2 None (PyBool False) True 0 (1/10) 100)
     = Some InsufficientCandidatesError \<and>
   (\<exists>k<2. \<exists>sk. simulate external_bo k None (PyBool False) True 0 (1/10) 100 = Returned () sk \<and>
      obj (final_state (simulate external_bo 2 None (PyBool False) True 0 (1/10) 100)) = obj sk \<and>
      prior_state (final_state (simulate external_bo 2 None (PyBool False) True 0 (1/10) 100))
        = prior_state (final_state (update_priors_step True k sk)))"
proof -
  have r: "run empty_bo True 0 (1/10) 100 = Raised EmptyDataError empty_bo"
    by (simp add: example_defs empty_bo_def bo_defs)
  have e: "raised_error (simulate external_bo 2 None (PyBool False) True 0 (1/10) 100)
     = Some InsufficientCandidatesError"
    by (simp add: example_defs bo_defs numeral_2_eq_2)
  then obtain s' where
    s: "simulate external_bo 2 None (PyBool False) True 0 (1/10) 100
          = Raised InsufficientCandidatesError s'"
    by (cases "simulate external_bo 2 None (PyBool False) True 0 (1/10) 100") simp_all
  have i: "has_returned (init_sample external_bo None True)"
    by (simp add: example_defs bo_defs)
  have "(init_sample external_bo None True = Raised InsufficientCandidatesError s' \<and>
          init_method (init_seq external_bo) \<noteq> External \<and> results (obj s') = [] \<and>
          prior_state s' = prior_state external_bo) \<or>
        (\<exists>k<2. \<exists>sk. simulate external_bo k None (PyBool False) True 0 (1/10) 100 = Returned () sk \<and>
           obj s' = obj sk \<and>
           prior_state s' = prior_state (final_state (update_priors_step True k sk)))"
    using failure_keeps_completed_steps
         [where s = external_bo and N = 2 and seed = None and fc = "PyBool False"
            and up = True and nr = 0 and lr = "1/10" and ti = 100 and app = True
            and e = InsufficientCandidatesError and s' = s'] s
    by blast
  moreover have "init_sample external_bo None True \<noteq> Raised InsufficientCandidatesError s'"
    using i by auto
  ultimately
  have "\<exists>k<2. \<exists>sk. simulate external_bo k None (PyBool False) True 0 (1/10) 100 = Returned () sk \<and>
      obj s' = obj sk \<and>
      prior_state s' = prior_state (final_state (update_priors_step True k sk))"
    by blast
  with r e s
    failure_keeps_completed_steps
         [where s = empty_bo and app = True and nr = 0 and lr = "1/10" and ti = 100
            and e = EmptyDataError and s' = empty_bo]
  show ?thesis by simp
qed

subsection \<open>Prior carryover\<close>

text \<open>
  What the carryover block does when the three prior specifications are separate list
  objects (or \<open>None\<close>), as the defaults are. In an iteration of \<open>simulate\<close>
  that completes, carryover happens exactly when \<open>update_priors\<close> is set, the
  iteration index is greater than zero and the base model passes the code's test for a
  Gaussian-process model; otherwise the prior lists and the references to them are
  unchanged. When it happens, the lengthscale, output-scale and noise estimates of the
  surrogate in the model slot, the one the previous iteration fitted, are the second
  elements of the corresponding specifications afterwards; a specification that was
  \<open>None\<close> is the pair of \<open>None\<close> and the estimate, and the distribution
  object of any other is the one it had. The lists stay separate.
\<close>

lemma carryover_with_separate_priors:
  assumes "simulate_iteration fc up nr lr ti i s = Returned u s'"
    and "refs_allocated s" and "separate_priors s"
  shows "(up \<and> 0 < i \<and> is_GP (base_model s) \<longrightarrow>
            (\<exists>m post_ls post_os post_n.
               model s = Some m \<and> gp_estimates m = Some (post_ls, post_os, post_n) \<and>
               prior_value s' (lengthscale_prior s') =
                 Some (prior_object s (lengthscale_prior s), post_ls) \<and>
               prior_value s' (outputscale_prior s') =
                 Some (prior_object s (outputscale_prior s), post_os) \<and>
               prior_value s' (noise_prior s') =
                 Some (prior_object s (noise_prior s), post_n))) \<and>
         (\<not> (up \<and> 0 < i \<and> is_GP (base_model s)) \<longrightarrow>
            heap s' = heap s \<and> lengthscale_prior s' = lengthscale_prior s \<and>
            outputscale_prior s' = outputscale_prior s \<and> noise_prior s' = noise_prior s) \<and>
         refs_allocated s' \<and> separate_priors s'"
proof -
  let ?t = "toggle_computation fc s"
  from simulate_iteration_priors [OF assms(1)] obtain s1 where
    st: "update_priors_step up i ?t = Returned () s1"
    and eq: "heap s' = heap s1" "lengthscale_prior s' = lengthscale_prior s1"
      "outputscale_prior s' = outputscale_prior s1" "noise_prior s' = noise_prior s1"
      "next_addr s' = next_addr s1"
    by blast
  note sp = same_priors [OF eq]
  note tf = toggle_computation_frame [of fc s]
  have wf: "refs_allocated ?t" "separate_priors ?t"
    using assms(2,3) by (simp_all add: toggle_computation_priors)
  show ?thesis
  proof (cases "up \<and> 0 < i \<and> is_GP (base_model s)")
    case True
    with st have co: "carry_over ?t = Returned () s1"
      by (simp add: update_priors_step_def tf)
    note c = carry_over_separate [OF co wf]
    from c(1) have "\<exists>m post_ls post_os post_n.
               model s = Some m \<and> gp_estimates m = Some (post_ls, post_os, post_n) \<and>
               prior_value s' (lengthscale_prior s') =
                 Some (prior_object s (lengthscale_prior s), post_ls) \<and>
               prior_value s' (outputscale_prior s') =
                 Some (prior_object s (outputscale_prior s), post_os) \<and>
               prior_value s' (noise_prior s') =
                 Some (prior_object s (noise_prior s), post_n)"
      by (simp add: sp(1) eq tf toggle_computation_priors)
    with True c(2,3) sp(2,3) show ?thesis by simp
  next
    case False
    with st have s1: "s1 = ?t" by (simp add: update_priors_step_def tf)
    have a: "refs_allocated s'" "separate_priors s'" using sp(2,3) wf s1 by simp_all
    have b: "heap s' = heap s" "lengthscale_prior s' = lengthscale_prior s"
      "outputscale_prior s' = outputscale_prior s" "noise_prior s' = noise_prior s"
      using eq s1 tf by simp_all
    from False a b show ?thesis by blast
  qed
qed

text \<open>
  C3, at an input where the code departs from it. The estimates are written in place
  into the prior lists, lengthscale first, then output scale, then noise. Take an
  instance constructed with one list object for all three priors and a
  Gaussian-process base model, and call \<open>simulate(iterations=2,
  update_priors=True)\<close>. Iteration 0 fits a surrogate with the estimates 2, 3 and 4;
  iteration 1 carries them over, and the call returns with 4, the noise estimate, as
  the current estimate of the lengthscale prior and of the output-scale prior, where
  the fitted lengthscale 2 and output scale 3 should be.
\<close>

theorem prior_carryover_aliased:
  "lengthscale_prior aliased_bo = noise_prior aliased_bo \<and>
   outputscale_prior aliased_bo = noise_prior aliased_bo \<and>
   is_GP (base_model aliased_bo) \<and>
   map_option gp_estimates (model (after_one aliased_bo)) = Some (Some (2, 3, 4)) \<and>
   has_returned (simulate aliased_bo 2 None (PyBool False) True 0 (1/10) 100) \<and>
   prior_value
     (final_state (simulate aliased_bo 2 None (PyBool False) True 0 (1/10) 100))
     (lengthscale_prior
        (final_state (simulate aliased_bo 2 None (PyBool False) True 0 (1/10) 100)))
     = Some (Some (GammaPrior 2 (1/5)), 4) \<and>
   prior_value
     (final_state (simulate aliased_bo 2 None (PyBool False) True 0 (1/10) 100))
     (outputscale_prior
        (final_state (simulate aliased_bo 2 None (PyBool False) True 0 (1/10) 100)))
     = Some (Some (GammaPrior 2 (1/5)), 4)"
  by (simp add: example_defs aliased_bo_def after_one_def prior_value_def bo_defs
        numeral_2_eq_2)

subsection \<open>Fast computation\<close>

text \<open>
  C4. In every iteration of \<open>simulate\<close> the computation mode is decided before
  the fit. For the booleans and for every integer other than 0 and 1 the decision is
  the documented one: \<open>True\<close> enables the mode, \<open>False\<close> disables it, and
  an integer threshold enables it once the ResultSet has more rows than the threshold
  (\<open>toggle_computation_cases\<close>). The integers 0 and 1 do not act as thresholds:
  \<open>fast_comp == False\<close> holds for 0 and \<open>fast_comp == True\<close> for 1, so
  with 0 the mode is disabled whatever the size of the ResultSet, and with 1 it is
  enabled whatever the size. On an instance constructed with the mode enabled,
  \<open>simulate(iterations=1, fast_comp=0)\<close> ends with two observations, more than
  the threshold, and with the mode disabled.
\<close>

theorem threshold_zero_and_one:
  "fast_mode (toggle_computation (PyInt 0) s) = False \<and>
   fast_mode (toggle_computation (PyInt 1) s) = True \<and>
   fast_mode fast_bo = True \<and>
   has_returned (simulate fast_bo 1 None (PyInt 0) False 0 (1/10) 100) \<and>
   length (results (obj (final_state (simulate fast_bo 1 None (PyInt 0) False 0 (1/10) 100))))
     = 2 \<and>
   fast_mode (final_state (simulate fast_bo 1 None (PyInt 0) False 0 (1/10) 100)) = False"
proof -
  have a: "fast_mode (toggle_computation (PyInt 0) s) = False"
    "fast_mode (toggle_computation (PyInt 1) s) = True"
    by (simp_all add: toggle_computation_def py_eq_def fast_computation_def)
  have b: "fast_mode fast_bo = True"
    "has_returned (simulate fast_bo 1 None (PyInt 0) False 0 (1/10) 100)"
    "length (results (obj (final_state (simulate fast_bo 1 None (PyInt 0) False 0 (1/10) 100))))
     = 2"
    "fast_mode (final_state (simulate fast_bo 1 None (PyInt 0) False 0 (1/10) 100)) = False"
    by (simp_all add: example_defs fast_bo_def bo_defs)
  from a b show ?thesis by simp
qed

subsection \<open>Auxiliary operations\<close>




end
